theory Spec2Isabelle
  imports Main "HOL-Library.AList"
begin

section \<open>Orders (project/order/order.go)\<close>

text \<open>
  \<open>network.IP\<close> is a string-like address; the zero value (the empty string) is the
  unassigned address written \<open>\<bottom>\<close> in the specification.
\<close>

type_synonym IP = string

definition unassigned :: IP where
  "unassigned = []"

text \<open>
  Modelled from the spec: the declaration of \<open>driver.ButtonType\<close> is not among the
  sources. The master only names \<open>driver.ButtonCallCommand\<close> (the cabin button); the
  two hall buttons are the specification's \<open>HallUp\<close> and \<open>HallDown\<close>.
\<close>

datatype ButtonType = ButtonCallUp | ButtonCallDown | ButtonCallCommand

record OrderButton =
  Type :: ButtonType
  Floor :: int

record Order =
  Button :: OrderButton
  TakenBy :: IP
  Done :: bool

definition OrdersEqual :: "Order \<Rightarrow> Order \<Rightarrow> bool" where
  "OrdersEqual order1 order2 \<longleftrightarrow>
     Floor (Button order1) = Floor (Button order2) \<and>
     Type (Button order1) = Type (Button order2)"

text \<open>The \<open>range\<close> loop of \<open>OrderNew\<close> returns at the first equal order.\<close>

fun OrderNew :: "Order \<Rightarrow> Order list \<Rightarrow> bool" where
  "OrderNew request [] = True"
| "OrderNew request (order # orders) =
     (if OrdersEqual request order then False else OrderNew request orders)"

section \<open>Order reconciliation in the master\<close>

text \<open>
  \<open>addNewOrders\<close>: one loop iteration per request. The loop variable is a copy, so
  the assignment to \<open>request.TakenBy\<close> changes only what is appended. A slice is
  modelled by the list of its elements; a nil slice and an empty one are both \<open>[]\<close>.
\<close>

fun addNewOrders :: "Order list \<Rightarrow> Order list \<Rightarrow> IP \<Rightarrow> Order list" where
  "addNewOrders [] orders sender = orders"
| "addNewOrders (request # requests) orders sender =
     (let request' = (if Type (Button request) = ButtonCallCommand
                      then request\<lparr>TakenBy := sender\<rparr> else request)
      in addNewOrders requests
           (if OrderNew request' orders then orders @ [request'] else orders) sender)"

text \<open>
  The inner loop of \<open>removeDoneOrders\<close> for one index: every request that equals the
  order and is flagged done sets the order's flag.
\<close>

fun markDone :: "Order list \<Rightarrow> Order \<Rightarrow> Order" where
  "markDone [] order = order"
| "markDone (request # requests) order =
     markDone requests
       (if OrdersEqual order request \<and> Done request then order\<lparr>Done := True\<rparr> else order)"

text \<open>
  The outer loop of \<open>removeDoneOrders\<close>, with its index. Removing element \<open>i\<close> is
  \<open>append(orders[:i], orders[i+1:]...)\<close>; the source then decrements \<open>i\<close> and the
  loop header increments it again, so the next iteration runs at the same index.
\<close>

function removeDoneLoop :: "Order list \<Rightarrow> Order list \<Rightarrow> nat \<Rightarrow> Order list" where
  "removeDoneLoop requests orders i =
     (if i < length orders then
        (let orders1 = orders[i := markDone requests (orders ! i)]
         in if Done (orders1 ! i)
            then removeDoneLoop requests (take i orders1 @ drop (i + 1) orders1) i
            else removeDoneLoop requests orders1 (i + 1))
      else orders)"
  by pat_completeness auto
termination
  by (relation "measure (\<lambda>(requests, orders, i). length orders - i)") auto

definition removeDoneOrders :: "Order list \<Rightarrow> Order list \<Rightarrow> Order list" where
  "removeDoneOrders requests orders = removeDoneLoop requests orders 0"

definition updateOrders :: "Order list \<Rightarrow> Order list \<Rightarrow> IP \<Rightarrow> Order list" where
  "updateOrders requests orders sender =
     removeDoneOrders requests (addNewOrders requests orders sender)"

section \<open>Messages and slave records (package com)\<close>

text \<open>
  Modelled from the spec: the declarations of package \<open>com\<close> are not among the
  sources; the records below have the fields the master reads and writes. The type of
  \<open>ElevData\<close> is left open (\<open>'e\<close>): the master only copies it. The \<open>AliveTimer\<close> of a
  slave record is a running timer and is not part of the model; its expiry reaches the
  master loop as the event \<open>SlaveTimedOut\<close> below.
\<close>

record UDPMessage =
  Address :: IP
  Data :: string

record 'e SlaveMessage =
  ElevData :: 'e
  Requests :: "Order list"

record 'e Slave =
  IP :: IP
  ElevData :: 'e
  HasTimedOut :: bool

text \<open>
  A Go map from addresses to slave records is an association list with \<open>map_of\<close> as
  lookup and \<open>AList.update\<close> as store. Go leaves the order of \<open>range\<close> over a map open;
  the order of the list stands for it.
\<close>

type_synonym 'e Slaves = "(IP \<times> 'e Slave) list"

record 'e MasterData =
  AssignedBackup :: IP
  Orders :: "Order list"
  Slaves :: "'e Slaves"

section \<open>Delegation (package delegation)\<close>

text \<open>
  Modelled from the spec: \<open>delegation.DelegateWork\<close> is not among the sources. By
  section 4.4 of the specification it takes the slaves that have not timed out and the
  orders, fails with \<open>NoLiveSlaves\<close> when no slave is live and leaves every order as it
  was, and otherwise sets \<open>TakenBy\<close> of every hall order to a slave chosen by a
  deterministic cost policy; cabin orders are never reassigned. The policy is the
  parameter \<open>assign\<close>. The master passes its slice and its map: the callee cannot change
  the length of the master's \<open>orders\<close>.
\<close>

datatype error = NoLiveSlaves

type_synonym 'e policy = "'e Slaves \<Rightarrow> Order list \<Rightarrow> Order \<Rightarrow> IP"

definition DelegateWork :: "'e policy \<Rightarrow> 'e Slaves \<Rightarrow> Order list \<Rightarrow> error + Order list" where
  "DelegateWork assign slaves orders =
     (let live = filter (\<lambda>(ip, slave). \<not> HasTimedOut slave) slaves
      in if live = [] then Inl NoLiveSlaves
         else Inr (map (\<lambda>order. if Type (Button order) = ButtonCallCommand then order
                                 else order\<lparr>TakenBy := assign live orders order\<rparr>) orders))"

text \<open>The master logs the error and goes on with the orders it has.\<close>

definition delegated :: "'e policy \<Rightarrow> 'e Slaves \<Rightarrow> Order list \<Rightarrow> Order list" where
  "delegated assign slaves orders =
     (case DelegateWork assign slaves orders of
        Inl err \<Rightarrow> orders
      | Inr orders' \<Rightarrow> orders')"

section \<open>The master (package master)\<close>

text \<open>
  The master is one goroutine: \<open>InitMaster\<close> loops over a \<open>select\<close> (awaiting a
  backup) and calls \<open>masterLoop\<close>, which loops over its own \<open>select\<close> (active) until the
  backup times out and then returns into the loop of \<open>InitMaster\<close>. The state is the
  local variables of the function whose \<open>select\<close> is waiting; while \<open>masterLoop\<close> runs,
  the \<open>selfAsBackup\<close> of the suspended \<open>InitMaster\<close> is kept.
\<close>

datatype 'e Master =
    AwaitingBackup bool "Order list" "'e Slaves"
  | Active bool IP "Order list" "'e Slaves"

text \<open>One event is one case of a \<open>select\<close> being taken.\<close>

datatype Event =
    BackupDeadline
  | FromSlaves UDPMessage
  | SendTick
  | SlaveTimedOut IP


fun ordersOf :: "'e Master \<Rightarrow> Order list" where
  "ordersOf (AwaitingBackup selfAsBackup orders slaves) = orders"
| "ordersOf (Active selfAsBackup backup orders slaves) = orders"

fun slavesOf :: "'e Master \<Rightarrow> 'e Slaves" where
  "slavesOf (AwaitingBackup selfAsBackup orders slaves) = slaves"
| "slavesOf (Active selfAsBackup backup orders slaves) = slaves"



text \<open>
  The head of \<open>masterLoop\<close>: the orders are taken as they are, and every initial slave
  record is stored under its own \<open>IP\<close> field in a fresh map, with a new timer.
\<close>

fun initSlaves :: "'e Slaves \<Rightarrow> 'e Slaves \<Rightarrow> 'e Slaves" where
  "initSlaves [] slaves = slaves"
| "initSlaves ((key, slave) # initialSlaves) slaves =
     initSlaves initialSlaves (AList.update (IP slave) slave slaves)"

definition masterLoop :: "bool \<Rightarrow> IP \<Rightarrow> Order list \<Rightarrow> 'e Slaves \<Rightarrow> 'e Master" where
  "masterLoop selfAsBackup backup initialOrders initialSlaves =
     Active selfAsBackup backup initialOrders (initSlaves initialSlaves [])"

text \<open>
  The \<open>select\<close> of \<open>InitMaster\<close>. \<open>com.DecodeSlaveMessage\<close> is not among the sources and
  is the parameter \<open>decode\<close> (\<open>None\<close> for a non-nil \<open>err\<close>); \<open>myIP\<close> is the package
  variable. The decoded message is discarded (\<open>_, err := ...\<close>). The send ticker and the
  time-out channel belong to \<open>masterLoop\<close>: their events are not received here.
\<close>

fun InitMaster_select ::
  "IP \<Rightarrow> (string \<Rightarrow> 'e SlaveMessage option) \<Rightarrow> bool \<Rightarrow> Order list \<Rightarrow> 'e Slaves \<Rightarrow> Event \<Rightarrow> 'e Master"
where
  "InitMaster_select myIP decode selfAsBackup orders slaves BackupDeadline =
     AwaitingBackup True orders slaves"
| "InitMaster_select myIP decode selfAsBackup orders slaves (FromSlaves message) =
     (case decode (Data message) of
        None \<Rightarrow> AwaitingBackup selfAsBackup orders slaves
      | Some _ \<Rightarrow>
          if (selfAsBackup \<and> Address message = myIP) \<or> Address message \<noteq> myIP
          then masterLoop selfAsBackup (Address message) orders slaves
          else AwaitingBackup selfAsBackup orders slaves)"
| "InitMaster_select myIP decode selfAsBackup orders slaves SendTick =
     AwaitingBackup selfAsBackup orders slaves"
| "InitMaster_select myIP decode selfAsBackup orders slaves (SlaveTimedOut slaveIP) =
     AwaitingBackup selfAsBackup orders slaves"

text \<open>
  The \<open>select\<close> of \<open>masterLoop\<close>. A new slave record is built and then, like a known
  one, gets \<open>HasTimedOut = false\<close> and the reported \<open>ElevData\<close> before it is stored. On a
  send tick the master delegates, broadcasts and saves; only the delegation changes its
  variables. The time-out of the backup returns \<open>orders, slaves\<close> to \<open>InitMaster\<close>. The
  backup-deadline timer is not received here.
\<close>

fun masterLoop_select ::
  "IP \<Rightarrow> (string \<Rightarrow> 'e SlaveMessage option) \<Rightarrow> 'e policy \<Rightarrow>
   bool \<Rightarrow> IP \<Rightarrow> Order list \<Rightarrow> 'e Slaves \<Rightarrow> Event \<Rightarrow> 'e Master"
where
  "masterLoop_select myIP decode assign selfAsBackup backup orders slaves (FromSlaves message) =
     (let senderIP = Address message in
      case decode (Data message) of
        None \<Rightarrow> Active selfAsBackup backup orders slaves
      | Some data \<Rightarrow>
          let backup' = (if backup = myIP \<and> senderIP \<noteq> myIP then senderIP else backup);
              slave = (case map_of slaves senderIP of
                         Some slave \<Rightarrow> slave\<lparr>ElevData := SlaveMessage.ElevData data, HasTimedOut := False\<rparr>
                       | None \<Rightarrow> \<lparr>IP = senderIP, ElevData = SlaveMessage.ElevData data,
                                   HasTimedOut = False\<rparr>)
          in Active selfAsBackup backup'
               (updateOrders (Requests data) orders senderIP)
               (AList.update senderIP slave slaves))"
| "masterLoop_select myIP decode assign selfAsBackup backup orders slaves SendTick =
     Active selfAsBackup backup (delegated assign slaves orders) slaves"
| "masterLoop_select myIP decode assign selfAsBackup backup orders slaves (SlaveTimedOut slaveIP) =
     (let (orders', slaves') =
            (case map_of slaves slaveIP of
               Some slave \<Rightarrow>
                 (let slaves1 = AList.update slaveIP (slave\<lparr>HasTimedOut := True\<rparr>) slaves
                  in (delegated assign slaves1 orders, slaves1))
             | None \<Rightarrow> (orders, slaves))
      in if slaveIP = backup then AwaitingBackup selfAsBackup orders' slaves'
         else Active selfAsBackup backup orders' slaves')"
| "masterLoop_select myIP decode assign selfAsBackup backup orders slaves BackupDeadline =
     Active selfAsBackup backup orders slaves"

text \<open>The snapshot that a send tick broadcasts and saves, after the delegation.\<close>

definition snapshot :: "'e policy \<Rightarrow> IP \<Rightarrow> Order list \<Rightarrow> 'e Slaves \<Rightarrow> 'e MasterData" where
  "snapshot assign backup orders slaves =
     \<lparr>AssignedBackup = backup, Orders = delegated assign slaves orders, Slaves = slaves\<rparr>"

fun step ::
  "IP \<Rightarrow> (string \<Rightarrow> 'e SlaveMessage option) \<Rightarrow> 'e policy \<Rightarrow> 'e Master \<Rightarrow> Event \<Rightarrow> 'e Master"
where
  "step myIP decode assign (AwaitingBackup selfAsBackup orders slaves) event =
     InitMaster_select myIP decode selfAsBackup orders slaves event"
| "step myIP decode assign (Active selfAsBackup backup orders slaves) event =
     masterLoop_select myIP decode assign selfAsBackup backup orders slaves event"

text \<open>The master after a sequence of events, in the order in which they are taken.\<close>

definition run ::
  "IP \<Rightarrow> (string \<Rightarrow> 'e SlaveMessage option) \<Rightarrow> 'e policy \<Rightarrow> 'e Master \<Rightarrow> Event list \<Rightarrow> 'e Master"
where
  "run myIP decode assign master events = foldl (step myIP decode assign) master events"

section \<open>Notions used in the proofs\<close>

text \<open>
  The request as \<open>addNewOrders\<close> appends it, the buttons for which a batch holds a
  request flagged done, and the orders that \<open>removeDoneOrders\<close> keeps.
\<close>

definition stamp :: "IP \<Rightarrow> Order \<Rightarrow> Order" where
  "stamp sender request =
     (if Type (Button request) = ButtonCallCommand then request\<lparr>TakenBy := sender\<rparr>
      else request)"

definition doneIn :: "Order list \<Rightarrow> OrderButton \<Rightarrow> bool" where
  "doneIn requests b \<longleftrightarrow> (\<exists>r \<in> set requests. Button r = b \<and> Done r)"

definition kept :: "Order list \<Rightarrow> Order \<Rightarrow> bool" where
  "kept requests order \<longleftrightarrow> \<not> Done order \<and> \<not> doneIn requests (Button order)"

declare addNewOrders.simps(2) [simp del]
declare removeDoneLoop.simps [simp del]

section \<open>Sample parameters\<close>

text \<open>
  A decoder and a delegation policy for the concrete instances below: the decoder
  accepts one payload, a press of the hall button up at floor 2; the policy gives
  every hall order to the first live slave.
\<close>

definition sampleDecode :: "string \<Rightarrow> unit SlaveMessage option" where
  "sampleDecode = map_of
     [(''press'', \<lparr>SlaveMessage.ElevData = (), Requests =
         [\<lparr>Button = \<lparr>Type = ButtonCallUp, Floor = 2\<rparr>, TakenBy = [], Done = False\<rparr>]\<rparr>)]"

definition samplePolicy :: "unit policy" where
  "samplePolicy live orders order = fst (hd live)"

section \<open>Facts about the reconciliation\<close>

lemma OrdersEqual_Button: "OrdersEqual a b \<longleftrightarrow> Button a = Button b"
  by (auto simp: OrdersEqual_def intro: OrderButton.equality)

lemma OrderNew_iff: "OrderNew r os \<longleftrightarrow> Button r \<notin> Button ` set os"
  by (induction os) (auto simp: OrdersEqual_Button)

lemma Button_stamp [simp]: "Button (stamp a r) = Button r"
  by (simp add: stamp_def)

lemma Done_stamp [simp]: "Done (stamp a r) = Done r"
  by (simp add: stamp_def)

lemma addNewOrders_Cons:
  "addNewOrders (r # rs) os a =
     addNewOrders rs (if Button r \<in> Button ` set os then os else os @ [stamp a r]) a"
  by (simp add: addNewOrders.simps(2) stamp_def OrderNew_iff Let_def)

lemma markDone_eq:
  "markDone rs x = (if doneIn rs (Button x) then x\<lparr>Done := True\<rparr> else x)"
  by (induction rs arbitrary: x) (auto simp: doneIn_def OrdersEqual_Button)

text \<open>The index loop is a filter: what lies before the index stays, the rest is sieved.\<close>

lemma removeDoneLoop_filter:
  "removeDoneLoop rs os i = take i os @ filter (kept rs) (drop i os)"
proof (induction rs os i rule: removeDoneLoop.induct)
  case (1 rs os i)
  show ?case
  proof (cases "i < length os")
    case False
    then show ?thesis by (subst removeDoneLoop.simps) simp
  next
    case True
    let ?o1 = "os[i := markDone rs (os ! i)]"
    have d: "drop i os = os ! i # drop (Suc i) os"
      using True by (simp add: Cons_nth_drop_Suc)
    show ?thesis
    proof (cases "Done (?o1 ! i)")
      case flagged: True
      have "removeDoneLoop rs os i = removeDoneLoop rs (take i ?o1 @ drop (i + 1) ?o1) i"
        using True flagged by (subst removeDoneLoop.simps) (simp add: Let_def)
      also have "\<dots> = take i (take i ?o1 @ drop (i + 1) ?o1) @
          filter (kept rs) (drop i (take i ?o1 @ drop (i + 1) ?o1))"
        using "1.IH"(1)[OF True refl flagged] .
      also have "\<dots> = take i os @ filter (kept rs) (drop (Suc i) os)"
        using True by simp
      also have "\<dots> = take i os @ filter (kept rs) (drop i os)"
        using True flagged by (simp add: d kept_def markDone_eq split: if_splits)
      finally show ?thesis .
    next
      case clear: False
      have same: "?o1 = os"
        using True clear by (simp add: markDone_eq split: if_splits)
      have k: "kept rs (os ! i)"
        using True clear by (simp add: markDone_eq kept_def split: if_splits)
      have "removeDoneLoop rs os i = removeDoneLoop rs ?o1 (i + 1)"
        using True clear by (subst removeDoneLoop.simps) (simp add: Let_def)
      also have "\<dots> = take (i + 1) ?o1 @ filter (kept rs) (drop (i + 1) ?o1)"
        using "1.IH"(2)[OF True refl clear] .
      also have "\<dots> = take i os @ filter (kept rs) (drop i os)"
        using True k by (simp add: same d take_Suc_conv_app_nth)
      finally show ?thesis .
    qed
  qed
qed

lemma removeDoneOrders_filter: "removeDoneOrders rs os = filter (kept rs) os"
  by (simp add: removeDoneOrders_def removeDoneLoop_filter)

lemma updateOrders_filter:
  "updateOrders rs os a = filter (kept rs) (addNewOrders rs os a)"
  by (simp add: updateOrders_def removeDoneOrders_filter)

lemma addNewOrders_append: "\<exists>ys. addNewOrders rs os a = os @ ys"
proof (induction rs arbitrary: os)
  case Nil
  then show ?case by simp
next
  case (Cons r rs)
  obtain ys where "addNewOrders rs (if Button r \<in> Button ` set os then os else os @ [stamp a r]) a
      = (if Button r \<in> Button ` set os then os else os @ [stamp a r]) @ ys"
    using Cons.IH by blast
  then show ?case
    by (cases "Button r \<in> Button ` set os") (simp_all add: addNewOrders_Cons)
qed

lemma addNewOrders_distinct:
  "distinct (map Button os) \<Longrightarrow> distinct (map Button (addNewOrders rs os a))"
proof (induction rs arbitrary: os)
  case Nil
  then show ?case by simp
next
  case (Cons r rs)
  have "distinct (map Button (if Button r \<in> Button ` set os then os else os @ [stamp a r]))"
    using Cons.prems by simp
  then show ?case
    unfolding addNewOrders_Cons by (rule Cons.IH)
qed

lemma set_addNewOrders: "set (addNewOrders rs os a) \<subseteq> set os \<union> stamp a ` set rs"
proof (induction rs arbitrary: os)
  case Nil
  then show ?case by simp
next
  case (Cons r rs)
  have "set (addNewOrders rs (if Button r \<in> Button ` set os then os else os @ [stamp a r]) a)
     \<subseteq> set (if Button r \<in> Button ` set os then os else os @ [stamp a r]) \<union> stamp a ` set rs"
    by (rule Cons.IH)
  then show ?case by (auto simp: addNewOrders_Cons split: if_splits)
qed

text \<open>
  Requests for a button with a done request in the batch \<open>R\<close> leave no trace: adding
  and then dropping those buttons is adding the other requests to the other orders.
\<close>

lemma addNewOrders_filter_live:
  "filter (\<lambda>x. \<not> doneIn R (Button x)) (addNewOrders rs os a) =
   addNewOrders (filter (\<lambda>x. \<not> doneIn R (Button x)) rs)
     (filter (\<lambda>x. \<not> doneIn R (Button x)) os) a"
proof (induction rs arbitrary: os)
  case Nil
  then show ?case by simp
next
  case (Cons r rs)
  let ?P = "\<lambda>x. \<not> doneIn R (Button x)"
  let ?os' = "if Button r \<in> Button ` set os then os else os @ [stamp a r]"
  have IH: "filter ?P (addNewOrders rs ?os' a) = addNewOrders (filter ?P rs) (filter ?P ?os') a"
    by (rule Cons.IH)
  show ?case
  proof (cases "doneIn R (Button r)")
    case True
    then have "filter ?P ?os' = filter ?P os" by simp
    with IH True show ?thesis by (simp add: addNewOrders_Cons)
  next
    case False
    then have mem: "Button r \<in> Button ` set (filter ?P os) \<longleftrightarrow> Button r \<in> Button ` set os"
      by auto
    have "filter ?P ?os' =
        (if Button r \<in> Button ` set (filter ?P os) then filter ?P os
         else filter ?P os @ [stamp a r])"
      using False unfolding mem by simp
    with IH False show ?thesis by (simp add: addNewOrders_Cons)
  qed
qed

lemma updateOrders_live:
  assumes "\<forall>x \<in> set os. \<not> Done x"
  shows "updateOrders R os a =
     addNewOrders (filter (\<lambda>x. \<not> doneIn R (Button x)) R)
       (filter (\<lambda>x. \<not> doneIn R (Button x)) os) a"
proof -
  have "kept R x \<longleftrightarrow> \<not> doneIn R (Button x)" if "x \<in> set (addNewOrders R os a)" for x
  proof -
    from that set_addNewOrders have "x \<in> set os \<or> x \<in> stamp a ` set R" by blast
    then have "Done x \<longrightarrow> doneIn R (Button x)"
      using assms by (auto simp: doneIn_def)
    then show ?thesis by (auto simp: kept_def)
  qed
  then have "filter (kept R) (addNewOrders R os a) =
      filter (\<lambda>x. \<not> doneIn R (Button x)) (addNewOrders R os a)"
    by (intro filter_cong) auto
  then show ?thesis by (simp add: updateOrders_filter addNewOrders_filter_live)
qed

lemma addNewOrders_known:
  "\<forall>r \<in> set rs. Button r \<in> Button ` set os \<Longrightarrow> addNewOrders rs os a = os"
  by (induction rs) (simp_all add: addNewOrders_Cons)

lemma Button_addNewOrders: "r \<in> set rs \<Longrightarrow> Button r \<in> Button ` set (addNewOrders rs os a)"
proof (induction rs arbitrary: os)
  case Nil
  then show ?case by simp
next
  case (Cons q rs)
  let ?os' = "if Button q \<in> Button ` set os then os else os @ [stamp a q]"
  show ?case
  proof (cases "r = q")
    case True
    obtain ys where "addNewOrders rs ?os' a = ?os' @ ys"
      using addNewOrders_append by blast
    moreover have "Button q \<in> Button ` set ?os'" by simp
    ultimately show ?thesis using True by (auto simp: addNewOrders_Cons)
  next
    case False
    with Cons.prems have "r \<in> set rs" by simp
    then have "Button r \<in> Button ` set (addNewOrders rs ?os' a)" by (rule Cons.IH)
    then show ?thesis by (simp add: addNewOrders_Cons)
  qed
qed

lemma addNewOrders_twice: "addNewOrders rs (addNewOrders rs os a) a = addNewOrders rs os a"
  by (rule addNewOrders_known) (simp add: Button_addNewOrders)

lemma updateOrders_not_Done: "x \<in> set (updateOrders R os a) \<Longrightarrow> \<not> Done x"
  by (simp add: updateOrders_filter kept_def)

lemma updateOrders_twice:
  assumes "\<forall>x \<in> set os. \<not> Done x"
  shows "updateOrders R (updateOrders R os a) a = updateOrders R os a"
proof -
  let ?P = "\<lambda>x. \<not> doneIn R (Button x)"
  let ?O1 = "updateOrders R os a"
  have O1: "?O1 = addNewOrders (filter ?P R) (filter ?P os) a"
    using assms by (rule updateOrders_live)
  have "\<forall>x \<in> set ?O1. ?P x"
    by (simp add: updateOrders_filter kept_def)
  then have stable: "filter ?P ?O1 = ?O1" by simp
  have "\<forall>x \<in> set ?O1. \<not> Done x"
    by (simp add: updateOrders_not_Done)
  then have "updateOrders R ?O1 a = addNewOrders (filter ?P R) (filter ?P ?O1) a"
    by (rule updateOrders_live)
  also have "\<dots> = addNewOrders (filter ?P R) ?O1 a"
    by (simp only: stable)
  also have "\<dots> = addNewOrders (filter ?P R) (addNewOrders (filter ?P R) (filter ?P os) a) a"
    using O1 by simp
  also have "\<dots> = addNewOrders (filter ?P R) (filter ?P os) a"
    by (rule addNewOrders_twice)
  finally show ?thesis using O1 by simp
qed

lemma addNewOrders_appends:
  "Button r \<notin> Button ` set (os @ pre) \<Longrightarrow>
   stamp a r \<in> set (drop (length os) (addNewOrders (pre @ r # post) os a))"
proof (induction pre arbitrary: os)
  case Nil
  obtain ys where "addNewOrders post (os @ [stamp a r]) a = (os @ [stamp a r]) @ ys"
    using addNewOrders_append by blast
  with Nil show ?case by (simp add: addNewOrders_Cons)
next
  case (Cons p pre)
  let ?os' = "if Button p \<in> Button ` set os then os else os @ [stamp a p]"
  have "Button r \<notin> Button ` set (?os' @ pre)"
    using Cons.prems by auto
  then have "stamp a r \<in> set (drop (length ?os') (addNewOrders (pre @ r # post) ?os' a))"
    by (rule Cons.IH)
  moreover have "set (drop (length ?os') (addNewOrders (pre @ r # post) ?os' a))
      \<subseteq> set (drop (length os) (addNewOrders (pre @ r # post) ?os' a))"
    by (rule set_drop_subset_set_drop) simp
  ultimately show ?case by (auto simp: addNewOrders_Cons)
qed

section \<open>Facts about the master\<close>

lemma map_of_initSlaves:
  "map_of (initSlaves initial acc) ip = Some slave \<Longrightarrow>
   map_of acc ip = Some slave \<or> (slave \<in> snd ` set initial \<and> IP slave = ip)"
proof (induction initial arbitrary: acc)
  case Nil
  then show ?case by simp
next
  case (Cons entry initial)
  obtain key s where entry: "entry = (key, s)" by (cases entry)
  from Cons.prems have "map_of (initSlaves initial (AList.update (IP s) s acc)) ip = Some slave"
    by (simp add: entry)
  then have "map_of (AList.update (IP s) s acc) ip = Some slave \<or>
      (slave \<in> snd ` set initial \<and> IP slave = ip)"
    by (rule Cons.IH)
  then show ?case
    by (auto simp: entry update_conv' split: if_splits)
qed

lemma map_of_initSlaves_keyed:
  "distinct (map fst initial) \<Longrightarrow> list_all (\<lambda>(ip, slave). IP slave = ip) initial \<Longrightarrow>
   map_of (initSlaves initial acc) = map_of acc ++ map_of initial"
proof (induction initial arbitrary: acc)
  case Nil
  then show ?case by simp
next
  case (Cons entry initial)
  obtain key s where entry: "entry = (key, s)" by (cases entry)
  from Cons.prems have k: "IP s = key" and fresh: "key \<notin> fst ` set initial"
    and d: "distinct (map fst initial)" and l: "list_all (\<lambda>(ip, slave). IP slave = ip) initial"
    by (auto simp: entry)
  have "map_of (initSlaves initial (AList.update key s acc)) =
      map_of (AList.update key s acc) ++ map_of initial"
    using d l by (rule Cons.IH)
  also have "\<dots> = (map_of acc)(key \<mapsto> s) ++ map_of initial"
    by (simp add: update_conv')
  also have "\<dots> = map_of acc ++ (map_of initial)(key \<mapsto> s)"
    using fresh by (simp add: map_add_upd_left dom_map_of_conv_image_fst)
  finally show ?case
    by (simp only: entry k initSlaves.simps map_of.simps fst_conv snd_conv)
qed

lemma Button_delegated: "map Button (delegated assign slaves orders) = map Button orders"
  by (simp add: delegated_def DelegateWork_def Let_def comp_def)

lemma Done_delegated: "map Done (delegated assign slaves orders) = map Done orders"
  by (simp add: delegated_def DelegateWork_def Let_def comp_def)

lemma dom_step_Active:
  "dom (map_of slaves) \<subseteq>
   dom (map_of (slavesOf (step myIP decode assign (Active selfAsBackup backup orders slaves) event)))"
proof (cases event)
  case BackupDeadline
  then show ?thesis by simp
next
  case (FromSlaves message)
  then show ?thesis
    by (cases "decode (Data message)") (auto simp: Let_def update_conv')
next
  case SendTick
  then show ?thesis by simp
next
  case (SlaveTimedOut slaveIP)
  then show ?thesis
    by (cases "map_of slaves slaveIP") (auto simp: Let_def update_conv')
qed








section \<open>Claims about the reconciliation\<close>

text \<open>
  Claim C1, as stated: for every orders list, request batch and sender, reconciling the
  same batch a second time changes nothing. This fails when the orders list holds an
  order that is already flagged done and the batch requests the same button without the
  flag: the first application drops the order, the second one adds the request.
\<close>

theorem updateOrders_idempotence_counterexample:
  "updateOrders [\<lparr>Button = \<lparr>Type = ButtonCallUp, Floor = 1\<rparr>, TakenBy = [], Done = False\<rparr>]
     (updateOrders [\<lparr>Button = \<lparr>Type = ButtonCallUp, Floor = 1\<rparr>, TakenBy = [], Done = False\<rparr>]
        [\<lparr>Button = \<lparr>Type = ButtonCallUp, Floor = 1\<rparr>, TakenBy = [], Done = True\<rparr>] ''10.0.0.2'')
     ''10.0.0.2''
   \<noteq> updateOrders [\<lparr>Button = \<lparr>Type = ButtonCallUp, Floor = 1\<rparr>, TakenBy = [], Done = False\<rparr>]
        [\<lparr>Button = \<lparr>Type = ButtonCallUp, Floor = 1\<rparr>, TakenBy = [], Done = True\<rparr>] ''10.0.0.2''"
  by code_simp

text \<open>
  Claim C1, amended: for every orders list that holds no order flagged done, every
  request batch and every sender, reconciling the same batch a second time changes
  nothing. Every list that the reconciliation returns is such a list, so for any orders
  list a third application changes nothing after the second.
\<close>

theorem updateOrders_idempotent:
  "((\<forall>order \<in> set orders. \<not> Done order) \<longrightarrow>
      updateOrders requests (updateOrders requests orders sender) sender =
      updateOrders requests orders sender) \<and>
   updateOrders requests (updateOrders requests (updateOrders requests orders sender) sender) sender =
     updateOrders requests (updateOrders requests orders sender) sender"
proof (intro conjI impI)
  assume "\<forall>order \<in> set orders. \<not> Done order"
  then show "updateOrders requests (updateOrders requests orders sender) sender =
      updateOrders requests orders sender"
    by (rule updateOrders_twice)
next
  have "\<forall>order \<in> set (updateOrders requests orders sender). \<not> Done order"
    by (simp add: updateOrders_not_Done)
  then show "updateOrders requests (updateOrders requests (updateOrders requests orders sender) sender) sender =
      updateOrders requests (updateOrders requests orders sender) sender"
    by (rule updateOrders_twice)
qed

theorem updateOrders_idempotent_witness:
  "\<not> Done \<lparr>Button = \<lparr>Type = ButtonCallDown, Floor = 3\<rparr>, TakenBy = ''10.0.0.3'', Done = False\<rparr> \<and>
   updateOrders
     [\<lparr>Button = \<lparr>Type = ButtonCallUp, Floor = 1\<rparr>, TakenBy = [], Done = False\<rparr>,
      \<lparr>Button = \<lparr>Type = ButtonCallDown, Floor = 3\<rparr>, TakenBy = ''10.0.0.3'', Done = True\<rparr>]
     (updateOrders
        [\<lparr>Button = \<lparr>Type = ButtonCallUp, Floor = 1\<rparr>, TakenBy = [], Done = False\<rparr>,
         \<lparr>Button = \<lparr>Type = ButtonCallDown, Floor = 3\<rparr>, TakenBy = ''10.0.0.3'', Done = True\<rparr>]
        [\<lparr>Button = \<lparr>Type = ButtonCallDown, Floor = 3\<rparr>, TakenBy = ''10.0.0.3'', Done = False\<rparr>]
        ''10.0.0.2'')
     ''10.0.0.2'' =
   updateOrders
     [\<lparr>Button = \<lparr>Type = ButtonCallUp, Floor = 1\<rparr>, TakenBy = [], Done = False\<rparr>,
      \<lparr>Button = \<lparr>Type = ButtonCallDown, Floor = 3\<rparr>, TakenBy = ''10.0.0.3'', Done = True\<rparr>]
     [\<lparr>Button = \<lparr>Type = ButtonCallDown, Floor = 3\<rparr>, TakenBy = ''10.0.0.3'', Done = False\<rparr>]
     ''10.0.0.2''"
  using updateOrders_idempotent
    [of "[\<lparr>Button = \<lparr>Type = ButtonCallDown, Floor = 3\<rparr>, TakenBy = ''10.0.0.3'', Done = False\<rparr>]"
        "[\<lparr>Button = \<lparr>Type = ButtonCallUp, Floor = 1\<rparr>, TakenBy = [], Done = False\<rparr>,
          \<lparr>Button = \<lparr>Type = ButtonCallDown, Floor = 3\<rparr>, TakenBy = ''10.0.0.3'', Done = True\<rparr>]"
        "''10.0.0.2''"]
  by simp

text \<open>
  Claim C2: when the orders have pairwise distinct buttons, the orders that the
  reconciliation (\<open>addNewOrders\<close>, then \<open>removeDoneOrders\<close>) returns have pairwise
  distinct buttons again, for every request batch and every sender.
\<close>

theorem updateOrders_distinct_buttons:
  "distinct (map Button orders) \<Longrightarrow>
   distinct (map Button (removeDoneOrders requests (addNewOrders requests orders sender)))"
  by (simp add: removeDoneOrders_filter addNewOrders_distinct distinct_map_filter)

theorem updateOrders_distinct_buttons_witness:
  "distinct (map Button [\<lparr>Button = \<lparr>Type = ButtonCallDown, Floor = 3\<rparr>, TakenBy = [], Done = False\<rparr>]) \<and>
   distinct (map Button (removeDoneOrders
     [\<lparr>Button = \<lparr>Type = ButtonCallDown, Floor = 3\<rparr>, TakenBy = [], Done = False\<rparr>,
      \<lparr>Button = \<lparr>Type = ButtonCallCommand, Floor = 3\<rparr>, TakenBy = [], Done = False\<rparr>,
      \<lparr>Button = \<lparr>Type = ButtonCallCommand, Floor = 3\<rparr>, TakenBy = [], Done = False\<rparr>]
     (addNewOrders
        [\<lparr>Button = \<lparr>Type = ButtonCallDown, Floor = 3\<rparr>, TakenBy = [], Done = False\<rparr>,
         \<lparr>Button = \<lparr>Type = ButtonCallCommand, Floor = 3\<rparr>, TakenBy = [], Done = False\<rparr>,
         \<lparr>Button = \<lparr>Type = ButtonCallCommand, Floor = 3\<rparr>, TakenBy = [], Done = False\<rparr>]
        [\<lparr>Button = \<lparr>Type = ButtonCallDown, Floor = 3\<rparr>, TakenBy = [], Done = False\<rparr>]
        ''10.0.0.2'')))"
  using updateOrders_distinct_buttons
    [of "[\<lparr>Button = \<lparr>Type = ButtonCallDown, Floor = 3\<rparr>, TakenBy = [], Done = False\<rparr>]"
        "[\<lparr>Button = \<lparr>Type = ButtonCallDown, Floor = 3\<rparr>, TakenBy = [], Done = False\<rparr>,
          \<lparr>Button = \<lparr>Type = ButtonCallCommand, Floor = 3\<rparr>, TakenBy = [], Done = False\<rparr>,
          \<lparr>Button = \<lparr>Type = ButtonCallCommand, Floor = 3\<rparr>, TakenBy = [], Done = False\<rparr>]"
        "''10.0.0.2''"]
  by simp

text \<open>
  Claim C3, as stated: a hall request that is not yet among the orders is appended with
  \<open>TakenBy\<close> unassigned. \<open>addNewOrders\<close> writes \<open>TakenBy\<close> for cabin requests only; a hall
  request keeps the address it arrives with.
\<close>

theorem addNewOrders_takenBy_counterexample:
  "addNewOrders [\<lparr>Button = \<lparr>Type = ButtonCallUp, Floor = 2\<rparr>, TakenBy = ''10.0.0.3'', Done = False\<rparr>]
     [] ''10.0.0.2''
   = [\<lparr>Button = \<lparr>Type = ButtonCallUp, Floor = 2\<rparr>, TakenBy = ''10.0.0.3'', Done = False\<rparr>]
   \<and> ''10.0.0.3'' \<noteq> unassigned"
  by (simp add: addNewOrders.simps(2) OrdersEqual_def unassigned_def)

text \<open>
  Claim C3, amended: a request of the batch whose button is neither among the orders
  nor requested earlier in the batch is appended behind the orders, which stay as they
  are; the appended order is the request with \<open>TakenBy\<close> set to the sender when it is a
  cabin call, and the request with the \<open>TakenBy\<close> it carries when it is a hall call.
\<close>

theorem addNewOrders_takenBy:
  assumes "requests = before @ request # after"
    and "OrderNew request (orders @ before)"
  shows "take (length orders) (addNewOrders requests orders sender) = orders \<and>
    (if Type (Button request) = ButtonCallCommand then request\<lparr>TakenBy := sender\<rparr> else request)
      \<in> set (drop (length orders) (addNewOrders requests orders sender))"
proof -
  obtain ys where "addNewOrders requests orders sender = orders @ ys"
    using addNewOrders_append by blast
  then have "take (length orders) (addNewOrders requests orders sender) = orders"
    by simp
  moreover have "stamp sender request
      \<in> set (drop (length orders) (addNewOrders (before @ request # after) orders sender))"
    using assms(2) by (intro addNewOrders_appends) (simp only: OrderNew_iff not_False_eq_True)
  ultimately show ?thesis
    using assms(1) by (simp add: stamp_def)
qed

theorem addNewOrders_takenBy_witness:
  "[\<lparr>Button = \<lparr>Type = ButtonCallUp, Floor = 2\<rparr>, TakenBy = ''10.0.0.3'', Done = False\<rparr>,
    \<lparr>Button = \<lparr>Type = ButtonCallCommand, Floor = 1\<rparr>, TakenBy = [], Done = False\<rparr>,
    \<lparr>Button = \<lparr>Type = ButtonCallDown, Floor = 3\<rparr>, TakenBy = [], Done = False\<rparr>]
   = [\<lparr>Button = \<lparr>Type = ButtonCallUp, Floor = 2\<rparr>, TakenBy = ''10.0.0.3'', Done = False\<rparr>]
     @ \<lparr>Button = \<lparr>Type = ButtonCallCommand, Floor = 1\<rparr>, TakenBy = [], Done = False\<rparr>
     # [\<lparr>Button = \<lparr>Type = ButtonCallDown, Floor = 3\<rparr>, TakenBy = [], Done = False\<rparr>]
   \<and> OrderNew \<lparr>Button = \<lparr>Type = ButtonCallCommand, Floor = 1\<rparr>, TakenBy = [], Done = False\<rparr>
       ([\<lparr>Button = \<lparr>Type = ButtonCallDown, Floor = 3\<rparr>, TakenBy = ''10.0.0.2'', Done = False\<rparr>]
        @ [\<lparr>Button = \<lparr>Type = ButtonCallUp, Floor = 2\<rparr>, TakenBy = ''10.0.0.3'', Done = False\<rparr>])
   \<and> \<lparr>Button = \<lparr>Type = ButtonCallCommand, Floor = 1\<rparr>, TakenBy = ''10.0.0.2'', Done = False\<rparr>
     \<in> set (drop 1 (addNewOrders
        [\<lparr>Button = \<lparr>Type = ButtonCallUp, Floor = 2\<rparr>, TakenBy = ''10.0.0.3'', Done = False\<rparr>,
         \<lparr>Button = \<lparr>Type = ButtonCallCommand, Floor = 1\<rparr>, TakenBy = [], Done = False\<rparr>,
         \<lparr>Button = \<lparr>Type = ButtonCallDown, Floor = 3\<rparr>, TakenBy = [], Done = False\<rparr>]
        [\<lparr>Button = \<lparr>Type = ButtonCallDown, Floor = 3\<rparr>, TakenBy = ''10.0.0.2'', Done = False\<rparr>]
        ''10.0.0.2''))"
  using addNewOrders_takenBy
    [of "[\<lparr>Button = \<lparr>Type = ButtonCallUp, Floor = 2\<rparr>, TakenBy = ''10.0.0.3'', Done = False\<rparr>,
          \<lparr>Button = \<lparr>Type = ButtonCallCommand, Floor = 1\<rparr>, TakenBy = [], Done = False\<rparr>,
          \<lparr>Button = \<lparr>Type = ButtonCallDown, Floor = 3\<rparr>, TakenBy = [], Done = False\<rparr>]"
        "[\<lparr>Button = \<lparr>Type = ButtonCallUp, Floor = 2\<rparr>, TakenBy = ''10.0.0.3'', Done = False\<rparr>]"
        "\<lparr>Button = \<lparr>Type = ButtonCallCommand, Floor = 1\<rparr>, TakenBy = [], Done = False\<rparr>"
        "[\<lparr>Button = \<lparr>Type = ButtonCallDown, Floor = 3\<rparr>, TakenBy = [], Done = False\<rparr>]"
        "[\<lparr>Button = \<lparr>Type = ButtonCallDown, Floor = 3\<rparr>, TakenBy = ''10.0.0.2'', Done = False\<rparr>]"
        "''10.0.0.2''"]
  by (simp add: OrdersEqual_def)

text \<open>
  Claim C4: after the master reconciles a batch, no order of the result has the button
  of a request flagged done, and no order of the result is flagged done.
\<close>

theorem updateOrders_done_removed:
  "(\<forall>request \<in> set requests. Done request \<longrightarrow>
      (\<forall>order \<in> set (updateOrders requests orders sender). \<not> OrdersEqual order request)) \<and>
   (\<forall>order \<in> set (updateOrders requests orders sender). \<not> Done order)"
  by (auto simp: updateOrders_filter kept_def doneIn_def OrdersEqual_Button)

theorem updateOrders_done_removed_witness:
  "updateOrders
     [\<lparr>Button = \<lparr>Type = ButtonCallUp, Floor = 2\<rparr>, TakenBy = ''10.0.0.3'', Done = True\<rparr>,
      \<lparr>Button = \<lparr>Type = ButtonCallDown, Floor = 0\<rparr>, TakenBy = [], Done = True\<rparr>]
     [\<lparr>Button = \<lparr>Type = ButtonCallCommand, Floor = 2\<rparr>, TakenBy = ''10.0.0.3'', Done = False\<rparr>,
      \<lparr>Button = \<lparr>Type = ButtonCallUp, Floor = 2\<rparr>, TakenBy = ''10.0.0.3'', Done = False\<rparr>]
     ''10.0.0.3''
   = [\<lparr>Button = \<lparr>Type = ButtonCallCommand, Floor = 2\<rparr>, TakenBy = ''10.0.0.3'', Done = False\<rparr>]
   \<and> Done \<lparr>Button = \<lparr>Type = ButtonCallUp, Floor = 2\<rparr>, TakenBy = ''10.0.0.3'', Done = True\<rparr>
   \<and> \<not> OrdersEqual
        \<lparr>Button = \<lparr>Type = ButtonCallCommand, Floor = 2\<rparr>, TakenBy = ''10.0.0.3'', Done = False\<rparr>
        \<lparr>Button = \<lparr>Type = ButtonCallUp, Floor = 2\<rparr>, TakenBy = ''10.0.0.3'', Done = True\<rparr>
   \<and> \<not> Done \<lparr>Button = \<lparr>Type = ButtonCallCommand, Floor = 2\<rparr>, TakenBy = ''10.0.0.3'', Done = False\<rparr>"
proof -
  have run: "updateOrders
     [\<lparr>Button = \<lparr>Type = ButtonCallUp, Floor = 2\<rparr>, TakenBy = ''10.0.0.3'', Done = True\<rparr>,
      \<lparr>Button = \<lparr>Type = ButtonCallDown, Floor = 0\<rparr>, TakenBy = [], Done = True\<rparr>]
     [\<lparr>Button = \<lparr>Type = ButtonCallCommand, Floor = 2\<rparr>, TakenBy = ''10.0.0.3'', Done = False\<rparr>,
      \<lparr>Button = \<lparr>Type = ButtonCallUp, Floor = 2\<rparr>, TakenBy = ''10.0.0.3'', Done = False\<rparr>]
     ''10.0.0.3''
   = [\<lparr>Button = \<lparr>Type = ButtonCallCommand, Floor = 2\<rparr>, TakenBy = ''10.0.0.3'', Done = False\<rparr>]"
    by code_simp
  show ?thesis
    using updateOrders_done_removed
      [of "[\<lparr>Button = \<lparr>Type = ButtonCallUp, Floor = 2\<rparr>, TakenBy = ''10.0.0.3'', Done = True\<rparr>,
            \<lparr>Button = \<lparr>Type = ButtonCallDown, Floor = 0\<rparr>, TakenBy = [], Done = True\<rparr>]"
          "[\<lparr>Button = \<lparr>Type = ButtonCallCommand, Floor = 2\<rparr>, TakenBy = ''10.0.0.3'', Done = False\<rparr>,
            \<lparr>Button = \<lparr>Type = ButtonCallUp, Floor = 2\<rparr>, TakenBy = ''10.0.0.3'', Done = False\<rparr>]"
          "''10.0.0.3''"]
    unfolding run by simp
qed

section \<open>Claims about the master\<close>




text \<open>
  Claim C6, as stated: a decodable message from the master's own address is reconciled
  (its requests merged into the orders, a slave record updated) in both phases. While
  the master awaits a backup with \<open>selfAsBackup\<close> unset, such a message leaves the
  master as it was, although reconciling its request would add an order.
\<close>

theorem self_message_reconciled_counterexample:
  "sampleDecode (Data \<lparr>Address = ''10.0.0.1'', Data = ''press''\<rparr>) =
     Some \<lparr>SlaveMessage.ElevData = (), Requests =
       [\<lparr>Button = \<lparr>Type = ButtonCallUp, Floor = 2\<rparr>, TakenBy = [], Done = False\<rparr>]\<rparr> \<and>
   step ''10.0.0.1'' sampleDecode samplePolicy (AwaitingBackup False [] [])
     (FromSlaves \<lparr>Address = ''10.0.0.1'', Data = ''press''\<rparr>) = AwaitingBackup False [] [] \<and>
   updateOrders [\<lparr>Button = \<lparr>Type = ButtonCallUp, Floor = 2\<rparr>, TakenBy = [], Done = False\<rparr>]
     [] ''10.0.0.1'' \<noteq> []"
proof -
  have "updateOrders [\<lparr>Button = \<lparr>Type = ButtonCallUp, Floor = 2\<rparr>, TakenBy = [], Done = False\<rparr>]
     [] ''10.0.0.1'' \<noteq> []"
    by code_simp
  then show ?thesis
    by (simp add: sampleDecode_def)
qed

text \<open>
  Claim C6, amended: in the active phase every decodable message from the master's own
  address is reconciled, whatever \<open>selfAsBackup\<close> is: its requests are merged into the
  orders and the record of the own address is updated. While the master awaits a
  backup, such a message is not reconciled: with \<open>selfAsBackup\<close> set the master becomes
  active with its own address as backup and the orders it had, and otherwise nothing
  changes.
\<close>

theorem self_message_reconciled:
  assumes "decode (Data message) = Some data"
    and "Address message = myIP"
  shows "step myIP decode assign (Active selfAsBackup backup orders slaves) (FromSlaves message) =
       Active selfAsBackup backup (updateOrders (Requests data) orders myIP)
         (AList.update myIP
            (case map_of slaves myIP of
               Some slave \<Rightarrow> slave\<lparr>ElevData := SlaveMessage.ElevData data, HasTimedOut := False\<rparr>
             | None \<Rightarrow> \<lparr>IP = myIP, ElevData = SlaveMessage.ElevData data, HasTimedOut = False\<rparr>)
            slaves) \<and>
     step myIP decode assign (AwaitingBackup selfAsBackup orders slaves) (FromSlaves message) =
       (if selfAsBackup then Active selfAsBackup myIP orders (initSlaves slaves [])
        else AwaitingBackup selfAsBackup orders slaves)"
  using assms by (simp add: Let_def masterLoop_def)

theorem self_message_reconciled_witness:
  "sampleDecode (Data \<lparr>Address = ''10.0.0.1'', Data = ''press''\<rparr>) =
     Some \<lparr>SlaveMessage.ElevData = (), Requests =
       [\<lparr>Button = \<lparr>Type = ButtonCallUp, Floor = 2\<rparr>, TakenBy = [], Done = False\<rparr>]\<rparr> \<and>
   Address \<lparr>Address = ''10.0.0.1'', Data = ''press''\<rparr> = ''10.0.0.1'' \<and>
   step ''10.0.0.1'' sampleDecode samplePolicy (Active False ''10.0.0.2'' [] [])
     (FromSlaves \<lparr>Address = ''10.0.0.1'', Data = ''press''\<rparr>) =
     Active False ''10.0.0.2''
       [\<lparr>Button = \<lparr>Type = ButtonCallUp, Floor = 2\<rparr>, TakenBy = [], Done = False\<rparr>]
       [(''10.0.0.1'', \<lparr>IP = ''10.0.0.1'', ElevData = (), HasTimedOut = False\<rparr>)]"
proof -
  have merged: "updateOrders
      [\<lparr>Button = \<lparr>Type = ButtonCallUp, Floor = 2\<rparr>, TakenBy = [], Done = False\<rparr>] [] ''10.0.0.1'' =
      [\<lparr>Button = \<lparr>Type = ButtonCallUp, Floor = 2\<rparr>, TakenBy = [], Done = False\<rparr>]"
    by code_simp
  show ?thesis
    using self_message_reconciled
      [of sampleDecode "\<lparr>Address = ''10.0.0.1'', Data = ''press''\<rparr>"
          "\<lparr>SlaveMessage.ElevData = (), Requests =
             [\<lparr>Button = \<lparr>Type = ButtonCallUp, Floor = 2\<rparr>, TakenBy = [], Done = False\<rparr>]\<rparr>"
          "''10.0.0.1''" samplePolicy False "''10.0.0.2''" "[]" "[]"]
    by (simp add: sampleDecode_def merged)
qed

text \<open>
  Claim C7: a datagram whose payload does not decode leaves the master exactly as it
  was, in both phases: the same phase, orders, slaves and backup.
\<close>

theorem decode_failure_dropped:
  "decode (Data message) = None \<Longrightarrow>
   step myIP decode assign master (FromSlaves message) = master"
  by (cases master) (simp_all add: Let_def)

theorem decode_failure_dropped_witness:
  "sampleDecode (Data \<lparr>Address = ''10.0.0.2'', Data = ''garbage''\<rparr>) = None \<and>
   step ''10.0.0.1'' sampleDecode samplePolicy
     (Active False ''10.0.0.2''
        [\<lparr>Button = \<lparr>Type = ButtonCallUp, Floor = 2\<rparr>, TakenBy = [], Done = False\<rparr>]
        [(''10.0.0.2'', \<lparr>IP = ''10.0.0.2'', ElevData = (), HasTimedOut = True\<rparr>)])
     (FromSlaves \<lparr>Address = ''10.0.0.2'', Data = ''garbage''\<rparr>) =
   Active False ''10.0.0.2''
     [\<lparr>Button = \<lparr>Type = ButtonCallUp, Floor = 2\<rparr>, TakenBy = [], Done = False\<rparr>]
     [(''10.0.0.2'', \<lparr>IP = ''10.0.0.2'', ElevData = (), HasTimedOut = True\<rparr>)] \<and>
   step ''10.0.0.1'' sampleDecode samplePolicy (AwaitingBackup False [] [])
     (FromSlaves \<lparr>Address = ''10.0.0.2'', Data = ''garbage''\<rparr>) = AwaitingBackup False [] []"
  using
    decode_failure_dropped [of sampleDecode "\<lparr>Address = ''10.0.0.2'', Data = ''garbage''\<rparr>"
      "''10.0.0.1''" samplePolicy
      "Active False ''10.0.0.2''
        [\<lparr>Button = \<lparr>Type = ButtonCallUp, Floor = 2\<rparr>, TakenBy = [], Done = False\<rparr>]
        [(''10.0.0.2'', \<lparr>IP = ''10.0.0.2'', ElevData = (), HasTimedOut = True\<rparr>)]"]
    decode_failure_dropped [of sampleDecode "\<lparr>Address = ''10.0.0.2'', Data = ''garbage''\<rparr>"
      "''10.0.0.1''" samplePolicy "AwaitingBackup False [] []"]
  by (simp add: sampleDecode_def)

text \<open>
  Claim C8: when the alive timer of a known address fires in the active phase, the
  record of that address gets \<open>HasTimedOut = true\<close> and stays in the map, every other
  record is unchanged, the orders keep their buttons and done flags in the same order
  (the delegation only rewrites \<open>TakenBy\<close>), and the master returns to awaiting a backup,
  with these orders and slaves, exactly when the address is the backup. No event of the
  active phase takes an address out of the map.
\<close>

theorem slave_timeout:
  assumes "map_of slaves slaveIP = Some slave"
  shows "let slaves' = AList.update slaveIP (slave\<lparr>HasTimedOut := True\<rparr>) slaves;
             orders' = delegated assign slaves' orders
         in step myIP decode assign (Active selfAsBackup backup orders slaves) (SlaveTimedOut slaveIP) =
              (if slaveIP = backup then AwaitingBackup selfAsBackup orders' slaves'
               else Active selfAsBackup backup orders' slaves') \<and>
            map_of slaves' = (map_of slaves)(slaveIP \<mapsto> slave\<lparr>HasTimedOut := True\<rparr>) \<and>
            dom (map_of slaves') = dom (map_of slaves) \<and>
            map Button orders' = map Button orders \<and>
            map Done orders' = map Done orders \<and>
            (\<forall>event. dom (map_of slaves) \<subseteq> dom (map_of (slavesOf
               (step myIP decode assign (Active selfAsBackup backup orders slaves) event))))"
proof -
  have st: "step myIP decode assign (Active selfAsBackup backup orders slaves) (SlaveTimedOut slaveIP) =
      (if slaveIP = backup
       then AwaitingBackup selfAsBackup
         (delegated assign (AList.update slaveIP (slave\<lparr>HasTimedOut := True\<rparr>) slaves) orders)
         (AList.update slaveIP (slave\<lparr>HasTimedOut := True\<rparr>) slaves)
       else Active selfAsBackup backup
         (delegated assign (AList.update slaveIP (slave\<lparr>HasTimedOut := True\<rparr>) slaves) orders)
         (AList.update slaveIP (slave\<lparr>HasTimedOut := True\<rparr>) slaves))"
    using assms by (simp add: Let_def)
  have "dom ((map_of slaves)(slaveIP \<mapsto> slave\<lparr>HasTimedOut := True\<rparr>)) = dom (map_of slaves)"
    using assms by auto
  then have kept_dom: "dom (map_of (AList.update slaveIP (slave\<lparr>HasTimedOut := True\<rparr>) slaves)) =
      dom (map_of slaves)"
    by (simp add: update_conv')
  have mono: "\<forall>event. dom (map_of slaves) \<subseteq> dom (map_of (slavesOf
               (step myIP decode assign (Active selfAsBackup backup orders slaves) event)))"
    by (simp only: dom_step_Active simp_thms)
  show ?thesis
    unfolding Let_def
    by (intro conjI) (rule st kept_dom mono update_conv' Button_delegated Done_delegated)+
qed

theorem slave_timeout_witness:
  "map_of [(''10.0.0.2'', \<lparr>IP = ''10.0.0.2'', ElevData = (), HasTimedOut = False\<rparr>),
           (''10.0.0.3'', \<lparr>IP = ''10.0.0.3'', ElevData = (), HasTimedOut = False\<rparr>)] ''10.0.0.2'' =
     Some \<lparr>IP = ''10.0.0.2'', ElevData = (), HasTimedOut = False\<rparr> \<and>
   step ''10.0.0.1'' sampleDecode samplePolicy
     (Active False ''10.0.0.2''
        [\<lparr>Button = \<lparr>Type = ButtonCallUp, Floor = 2\<rparr>, TakenBy = ''10.0.0.2'', Done = False\<rparr>]
        [(''10.0.0.2'', \<lparr>IP = ''10.0.0.2'', ElevData = (), HasTimedOut = False\<rparr>),
         (''10.0.0.3'', \<lparr>IP = ''10.0.0.3'', ElevData = (), HasTimedOut = False\<rparr>)])
     (SlaveTimedOut ''10.0.0.2'') =
   AwaitingBackup False
     [\<lparr>Button = \<lparr>Type = ButtonCallUp, Floor = 2\<rparr>, TakenBy = ''10.0.0.3'', Done = False\<rparr>]
     [(''10.0.0.2'', \<lparr>IP = ''10.0.0.2'', ElevData = (), HasTimedOut = True\<rparr>),
      (''10.0.0.3'', \<lparr>IP = ''10.0.0.3'', ElevData = (), HasTimedOut = False\<rparr>)]"
  using slave_timeout
    [of "[(''10.0.0.2'', \<lparr>IP = ''10.0.0.2'', ElevData = (), HasTimedOut = False\<rparr>),
          (''10.0.0.3'', \<lparr>IP = ''10.0.0.3'', ElevData = (), HasTimedOut = False\<rparr>)]"
        "''10.0.0.2''" "\<lparr>IP = ''10.0.0.2'', ElevData = (), HasTimedOut = False\<rparr>"
        samplePolicy
        "[\<lparr>Button = \<lparr>Type = ButtonCallUp, Floor = 2\<rparr>, TakenBy = ''10.0.0.2'', Done = False\<rparr>]"
        "''10.0.0.1''" sampleDecode False "''10.0.0.2''"]
  by (simp add: Let_def delegated_def DelegateWork_def samplePolicy_def)

text \<open>
  Claim C9: after a decodable slave message from an address in the active phase, the
  map holds a record for that address with \<open>HasTimedOut = false\<close> and the reported
  \<open>ElevData\<close> (created if the address was unknown), every other record is unchanged,
  and the backup becomes the sender exactly when the backup was the master's own
  address and the sender is not.
\<close>

theorem slave_message_record:
  assumes "decode (Data message) = Some data"
  shows "\<exists>slaves' slave.
     step myIP decode assign (Active selfAsBackup backup orders slaves) (FromSlaves message) =
       Active selfAsBackup
         (if backup = myIP \<and> Address message \<noteq> myIP then Address message else backup)
         (updateOrders (Requests data) orders (Address message)) slaves' \<and>
     map_of slaves' = (map_of slaves)(Address message \<mapsto> slave) \<and>
     HasTimedOut slave = False \<and>
     ElevData slave = SlaveMessage.ElevData data \<and>
     IP slave = (case map_of slaves (Address message) of
                   Some known \<Rightarrow> IP known | None \<Rightarrow> Address message)"
proof -
  let ?slave = "case map_of slaves (Address message) of
      Some known \<Rightarrow> known\<lparr>ElevData := SlaveMessage.ElevData data, HasTimedOut := False\<rparr>
    | None \<Rightarrow> \<lparr>IP = Address message, ElevData = SlaveMessage.ElevData data, HasTimedOut = False\<rparr>"
  have "step myIP decode assign (Active selfAsBackup backup orders slaves) (FromSlaves message) =
       Active selfAsBackup
         (if backup = myIP \<and> Address message \<noteq> myIP then Address message else backup)
         (updateOrders (Requests data) orders (Address message))
         (AList.update (Address message) ?slave slaves)"
    using assms by (simp add: Let_def)
  moreover have "map_of (AList.update (Address message) ?slave slaves) =
      (map_of slaves)(Address message \<mapsto> ?slave)"
    by (simp add: update_conv')
  moreover have "HasTimedOut ?slave = False" "ElevData ?slave = SlaveMessage.ElevData data"
    "IP ?slave = (case map_of slaves (Address message) of
                   Some known \<Rightarrow> IP known | None \<Rightarrow> Address message)"
    by (simp_all split: option.split)
  ultimately show ?thesis by blast
qed

theorem slave_message_record_witness:
  "sampleDecode (Data \<lparr>Address = ''10.0.0.2'', Data = ''press''\<rparr>) =
     Some \<lparr>SlaveMessage.ElevData = (), Requests =
       [\<lparr>Button = \<lparr>Type = ButtonCallUp, Floor = 2\<rparr>, TakenBy = [], Done = False\<rparr>]\<rparr> \<and>
   (\<exists>slaves' slave.
     step ''10.0.0.1'' sampleDecode samplePolicy
       (Active False ''10.0.0.1'' []
          [(''10.0.0.2'', \<lparr>IP = ''10.0.0.2'', ElevData = (), HasTimedOut = True\<rparr>)])
       (FromSlaves \<lparr>Address = ''10.0.0.2'', Data = ''press''\<rparr>) =
       Active False ''10.0.0.2''
         (updateOrders [\<lparr>Button = \<lparr>Type = ButtonCallUp, Floor = 2\<rparr>, TakenBy = [], Done = False\<rparr>]
            [] ''10.0.0.2'')
         slaves' \<and>
     map_of slaves' ''10.0.0.2'' = Some slave \<and> HasTimedOut slave = False)"
proof -
  have decoded: "sampleDecode (Data \<lparr>Address = ''10.0.0.2'', Data = ''press''\<rparr>) =
     Some \<lparr>SlaveMessage.ElevData = (), Requests =
       [\<lparr>Button = \<lparr>Type = ButtonCallUp, Floor = 2\<rparr>, TakenBy = [], Done = False\<rparr>]\<rparr>"
    by (simp add: sampleDecode_def)
  from decoded slave_message_record [of sampleDecode "\<lparr>Address = ''10.0.0.2'', Data = ''press''\<rparr>"
      "\<lparr>SlaveMessage.ElevData = (), Requests =
         [\<lparr>Button = \<lparr>Type = ButtonCallUp, Floor = 2\<rparr>, TakenBy = [], Done = False\<rparr>]\<rparr>"
      "''10.0.0.1''" samplePolicy False "''10.0.0.1''" "[]"
      "[(''10.0.0.2'', \<lparr>IP = ''10.0.0.2'', ElevData = (), HasTimedOut = True\<rparr>)]"]
  obtain slaves' slave where
    "step ''10.0.0.1'' sampleDecode samplePolicy
       (Active False ''10.0.0.1'' []
          [(''10.0.0.2'', \<lparr>IP = ''10.0.0.2'', ElevData = (), HasTimedOut = True\<rparr>)])
       (FromSlaves \<lparr>Address = ''10.0.0.2'', Data = ''press''\<rparr>) =
       Active False ''10.0.0.2''
         (updateOrders [\<lparr>Button = \<lparr>Type = ButtonCallUp, Floor = 2\<rparr>, TakenBy = [], Done = False\<rparr>]
            [] ''10.0.0.2'')
         slaves'"
    and "map_of slaves' = (map_of [(''10.0.0.2'', \<lparr>IP = ''10.0.0.2'', ElevData = (), HasTimedOut = True\<rparr>)])
        (''10.0.0.2'' \<mapsto> slave)"
    and "HasTimedOut slave = False"
    by auto
  then have "step ''10.0.0.1'' sampleDecode samplePolicy
       (Active False ''10.0.0.1'' []
          [(''10.0.0.2'', \<lparr>IP = ''10.0.0.2'', ElevData = (), HasTimedOut = True\<rparr>)])
       (FromSlaves \<lparr>Address = ''10.0.0.2'', Data = ''press''\<rparr>) =
       Active False ''10.0.0.2''
         (updateOrders [\<lparr>Button = \<lparr>Type = ButtonCallUp, Floor = 2\<rparr>, TakenBy = [], Done = False\<rparr>]
            [] ''10.0.0.2'')
         slaves' \<and>
     map_of slaves' ''10.0.0.2'' = Some slave \<and> HasTimedOut slave = False"
    by simp
  then show ?thesis
    using decoded by blast
qed

text \<open>
  Claim C10: the message that takes the master from awaiting a backup to the active
  phase contributes its source address only. The orders are as before, every record of
  the new map is one of the old records under its own \<open>IP\<close> (none is created for the
  sender), a map keyed by the \<open>IP\<close> fields is carried over as it is, and the sender's
  requests and record appear once the message is received again in the active phase.
\<close>

theorem backup_message_discarded:
  assumes "decode (Data message) = Some data"
    and "(selfAsBackup \<and> Address message = myIP) \<or> Address message \<noteq> myIP"
  shows "step myIP decode assign (AwaitingBackup selfAsBackup orders slaves) (FromSlaves message) =
       Active selfAsBackup (Address message) orders (initSlaves slaves []) \<and>
     (\<forall>ip slave. map_of (initSlaves slaves []) ip = Some slave \<longrightarrow>
        slave \<in> snd ` set slaves \<and> IP slave = ip) \<and>
     (distinct (map fst slaves) \<and> list_all (\<lambda>(ip, slave). IP slave = ip) slaves \<longrightarrow>
        map_of (initSlaves slaves []) = map_of slaves) \<and>
     ordersOf (step myIP decode assign
        (step myIP decode assign (AwaitingBackup selfAsBackup orders slaves) (FromSlaves message))
        (FromSlaves message)) = updateOrders (Requests data) orders (Address message) \<and>
     map_of (slavesOf (step myIP decode assign
        (step myIP decode assign (AwaitingBackup selfAsBackup orders slaves) (FromSlaves message))
        (FromSlaves message))) (Address message) \<noteq> None"
proof -
  have first: "step myIP decode assign (AwaitingBackup selfAsBackup orders slaves) (FromSlaves message) =
       Active selfAsBackup (Address message) orders (initSlaves slaves [])"
    using assms by (auto simp: masterLoop_def)
  have old: "\<forall>ip slave. map_of (initSlaves slaves []) ip = Some slave \<longrightarrow>
        slave \<in> snd ` set slaves \<and> IP slave = ip"
  proof (intro allI impI)
    fix ip slave
    assume "map_of (initSlaves slaves []) ip = Some slave"
    then have "map_of [] ip = Some slave \<or> (slave \<in> snd ` set slaves \<and> IP slave = ip)"
      by (rule map_of_initSlaves)
    then show "slave \<in> snd ` set slaves \<and> IP slave = ip"
      by simp
  qed
  have keyed: "distinct (map fst slaves) \<and> list_all (\<lambda>(ip, slave). IP slave = ip) slaves \<longrightarrow>
        map_of (initSlaves slaves []) = map_of slaves"
  proof (intro impI, elim conjE)
    assume "distinct (map fst slaves)" and "list_all (\<lambda>(ip, slave). IP slave = ip) slaves"
    then have "map_of (initSlaves slaves []) = map_of [] ++ map_of slaves"
      by (rule map_of_initSlaves_keyed)
    then show "map_of (initSlaves slaves []) = map_of slaves"
      by simp
  qed
  have second: "ordersOf (step myIP decode assign
        (Active selfAsBackup (Address message) orders (initSlaves slaves [])) (FromSlaves message))
      = updateOrders (Requests data) orders (Address message)"
    using assms(1) by (simp add: Let_def)
  have third: "map_of (slavesOf (step myIP decode assign
        (Active selfAsBackup (Address message) orders (initSlaves slaves [])) (FromSlaves message)))
      (Address message) \<noteq> None"
    using assms(1) by (simp add: Let_def update_conv')
  show ?thesis
    unfolding first by (intro conjI) (rule refl old keyed second third)+
qed

theorem backup_message_discarded_witness:
  "sampleDecode (Data \<lparr>Address = ''10.0.0.2'', Data = ''press''\<rparr>) =
     Some \<lparr>SlaveMessage.ElevData = (), Requests =
       [\<lparr>Button = \<lparr>Type = ButtonCallUp, Floor = 2\<rparr>, TakenBy = [], Done = False\<rparr>]\<rparr> \<and>
   Address \<lparr>Address = ''10.0.0.2'', Data = ''press''\<rparr> \<noteq> ''10.0.0.1'' \<and>
   step ''10.0.0.1'' sampleDecode samplePolicy
     (AwaitingBackup False []
        [(''10.0.0.3'', \<lparr>IP = ''10.0.0.3'', ElevData = (), HasTimedOut = True\<rparr>)])
     (FromSlaves \<lparr>Address = ''10.0.0.2'', Data = ''press''\<rparr>) =
     Active False ''10.0.0.2'' []
       [(''10.0.0.3'', \<lparr>IP = ''10.0.0.3'', ElevData = (), HasTimedOut = True\<rparr>)] \<and>
   map_of [(''10.0.0.3'', \<lparr>IP = ''10.0.0.3'', ElevData = (), HasTimedOut = True\<rparr>)] ''10.0.0.2'' = None \<and>
   distinct (map fst [(''10.0.0.3'', \<lparr>IP = ''10.0.0.3'', ElevData = (), HasTimedOut = True\<rparr>)]) \<and>
   list_all (\<lambda>(ip, slave). IP slave = ip)
     [(''10.0.0.3'', \<lparr>IP = ''10.0.0.3'', ElevData = (), HasTimedOut = True\<rparr>)]"
proof -
  have decoded: "sampleDecode (Data \<lparr>Address = ''10.0.0.2'', Data = ''press''\<rparr>) =
     Some \<lparr>SlaveMessage.ElevData = (), Requests =
       [\<lparr>Button = \<lparr>Type = ButtonCallUp, Floor = 2\<rparr>, TakenBy = [], Done = False\<rparr>]\<rparr>"
    by (simp add: sampleDecode_def)
  have remote: "(False \<and> Address \<lparr>Address = ''10.0.0.2'', Data = ''press''\<rparr> = ''10.0.0.1'') \<or>
      Address \<lparr>Address = ''10.0.0.2'', Data = ''press''\<rparr> \<noteq> ''10.0.0.1''"
    by simp
  have "step ''10.0.0.1'' sampleDecode samplePolicy
     (AwaitingBackup False []
        [(''10.0.0.3'', \<lparr>IP = ''10.0.0.3'', ElevData = (), HasTimedOut = True\<rparr>)])
     (FromSlaves \<lparr>Address = ''10.0.0.2'', Data = ''press''\<rparr>) =
     Active False (Address \<lparr>Address = ''10.0.0.2'', Data = ''press''\<rparr>) []
       (initSlaves [(''10.0.0.3'', \<lparr>IP = ''10.0.0.3'', ElevData = (), HasTimedOut = True\<rparr>)] [])"
    by (rule backup_message_discarded
      [of sampleDecode "\<lparr>Address = ''10.0.0.2'', Data = ''press''\<rparr>"
          "\<lparr>SlaveMessage.ElevData = (), Requests =
             [\<lparr>Button = \<lparr>Type = ButtonCallUp, Floor = 2\<rparr>, TakenBy = [], Done = False\<rparr>]\<rparr>"
          False "''10.0.0.1''" samplePolicy "[]"
          "[(''10.0.0.3'', \<lparr>IP = ''10.0.0.3'', ElevData = (), HasTimedOut = True\<rparr>)]",
        OF decoded remote, THEN conjunct1])
  then show ?thesis
    using decoded by simp
qed

end
